theory Spec2Isabelle
  imports Main "HOL-Library.AList"
begin

section \<open>Data model of the adapter lifecycle controller\<close>

text \<open>
  The controller is the React function component \<open>ConfigureAdapter\<close> of
  \<^verbatim>\<open>configure-adapter.tsx\<close>. Its three pieces of state are
  \<open>appliedAdapterArgs\<close> (a \<open>useState\<close> cell), \<open>pendingAdapterArgs\<close> and
  \<open>adapterState\<close> (two \<open>useRef\<close> cells).

  Adapter arguments are opaque objects. A value of the type variable \<open>'a\<close> stands for a
  reference to such an object: React compares hook dependencies and state values with
  \<open>Object.is\<close>, which is equality of references, and the model compares values of
  \<open>'a\<close> with \<open>=\<close>.
\<close>

datatype AdapterState = UNCONFIGURED | CONFIGURING | CONFIGURED

datatype FlagValue = FlagBool bool | FlagVariation string | FlagNull

type_synonym Flags = "(string \<times> FlagValue) list"

record AdapterReconfigurationOptions =
  shouldOverwrite :: bool

text \<open>
  \<open>AdapterReconfiguration\<close> is \<open>{ adapterArgs, options }\<close>; its first field is named
  \<open>requestedAdapterArgs\<close> here because \<open>adapterArgs\<close> is also a field of \<open>Props\<close>.
\<close>

record 'a AdapterReconfiguration =
  requestedAdapterArgs :: 'a
  options :: AdapterReconfigurationOptions

text \<open>
  A child node is a React element (of type \<open>'n\<close>) or a text (a string or a number,
  which are no React elements). \<open>props.children\<close> is either \<open>null\<close> (the default),
  a function of \<open>{ isAdapterReady }\<close>, one child node, or an array of child nodes.
  Booleans and nested arrays are left out.
\<close>

datatype 'n ChildNode = ElementNode 'n | TextNode string

datatype 'n ConfigureAdapterChildren =
    NoChildren
  | FunctionChildren "bool \<Rightarrow> 'n"
  | SingleChild "'n ChildNode"
  | ArrayChildren "'n ChildNode list"

text \<open>
  The props the component reads. \<open>adapterIsReady\<close> is the value of
  \<open>props.adapter.getIsReady()\<close> at the render; \<open>render\<close> is \<open>Some r\<close> when
  \<open>props.render\<close> is a function whose call returns \<open>r\<close>; \<open>defaultFlags\<close> is
  \<open>None\<close> for a falsy value (\<open>defaultProps\<close> turns an omitted prop into the empty
  object \<open>Some []\<close>).
\<close>

record ('a, 'n) Props =
  shouldDeferAdapterConfiguration :: bool
  adapterArgs :: 'a
  adapterIsReady :: bool
  defaultFlags :: "Flags option"
  render :: "'n option"
  children :: "'n ConfigureAdapterChildren"

text \<open>What the controller does to the outside: the adapter calls and the flag callback.\<close>

datatype 'a AdapterCall = Configure 'a | Reconfigure 'a

datatype 'a Emitted = OnFlagsStateChange Flags | Called "'a AdapterCall"

text \<open>
  The state of one mounted controller.
  \<^item> \<open>props\<close>: the props object of the last render;
  \<^item> \<open>appliedAdapterArgs\<close>: the \<open>useState\<close> value of the last render, which is the
    value every callback of that render has closed over;
  \<^item> \<open>scheduledAdapterArgs\<close>: the argument of the last \<open>setAppliedAdapterArgs\<close> call
    that no render has taken up yet;
  \<^item> \<open>pendingAdapterArgs\<close>, \<open>adapterState\<close>: the two refs;
  \<^item> \<open>mergeCalls\<close>: how often \<open>mergeAdapterArgs\<close> has been called;
  \<^item> \<open>inFlight\<close>: the adapter promises that are neither resolved nor rejected;
  \<^item> \<open>emitted\<close>: every adapter call and every \<open>onFlagsStateChange\<close> call the
    controller has made, oldest first.
\<close>

record ('a, 'n) Controller =
  props :: "('a, 'n) Props"
  appliedAdapterArgs :: 'a
  scheduledAdapterArgs :: "'a option"
  pendingAdapterArgs :: "'a option"
  adapterState :: AdapterState
  mergeCalls :: nat
  inFlight :: "'a AdapterCall list"
  emitted :: "'a Emitted list"

section \<open>Callbacks of the component\<close>

text \<open>
  \<open>mergeAdapterArgs\<close> comes from \<^verbatim>\<open>./helpers\<close>, which is not among the sources. Every
  function that uses it takes it as the parameter \<open>mrg\<close>. A JavaScript function can
  build a new object at every call, and two objects with the same fields are two values
  for \<open>Object.is\<close>. The parameter therefore takes, before the two arguments of the
  helper, the number of calls made so far: \<open>mrg n base request\<close> is the object the
  helper returns at its call number \<open>n\<close>. A helper that allocates nothing ignores
  \<open>n\<close>.
\<close>

type_synonym 'a Merge = "nat \<Rightarrow> 'a \<Rightarrow> 'a AdapterReconfiguration \<Rightarrow> 'a"

definition setAdapterState ::
  "AdapterState \<Rightarrow> ('a, 'n) Controller \<Rightarrow> ('a, 'n) Controller" where
  "setAdapterState nextAdapterState s = s\<lparr>adapterState := nextAdapterState\<rparr>"

definition applyAdapterArgs :: "'a \<Rightarrow> ('a, 'n) Controller \<Rightarrow> ('a, 'n) Controller" where
  "applyAdapterArgs nextAdapterArgs s = s\<lparr>scheduledAdapterArgs := Some nextAdapterArgs\<rparr>"

definition getIsAdapterConfigured :: "('a, 'n) Controller \<Rightarrow> bool" where
  "getIsAdapterConfigured s =
     (adapterState s = CONFIGURED \<and> adapterState s \<noteq> CONFIGURING)"

definition getDoesAdapterNeedInitialConfiguration :: "('a, 'n) Controller \<Rightarrow> bool" where
  "getDoesAdapterNeedInitialConfiguration s =
     (adapterState s \<noteq> CONFIGURED \<and> adapterState s \<noteq> CONFIGURING)"

definition getAdapterArgsForConfiguration :: "('a, 'n) Controller \<Rightarrow> 'a" where
  "getAdapterArgsForConfiguration s =
     (case pendingAdapterArgs s of Some p \<Rightarrow> p | None \<Rightarrow> appliedAdapterArgs s)"

definition setPendingAdapterArgs ::
  "'a Merge \<Rightarrow> 'a AdapterReconfiguration \<Rightarrow> ('a, 'n) Controller \<Rightarrow> ('a, 'n) Controller" where
  "setPendingAdapterArgs mrg nextReconfiguration s =
     s\<lparr>pendingAdapterArgs :=
         Some (mrg (mergeCalls s)
                   (case pendingAdapterArgs s of Some p \<Rightarrow> p | None \<Rightarrow> appliedAdapterArgs s)
                   nextReconfiguration),
       mergeCalls := Suc (mergeCalls s)\<rparr>"

definition reconfigureOrQueue ::
  "'a Merge \<Rightarrow> 'a \<Rightarrow> AdapterReconfigurationOptions \<Rightarrow> ('a, 'n) Controller
     \<Rightarrow> ('a, 'n) Controller" where
  "reconfigureOrQueue mrg nextArgs opts s =
     (if getIsAdapterConfigured s
      then applyAdapterArgs
             (mrg (mergeCalls s) (appliedAdapterArgs s)
                  \<lparr>requestedAdapterArgs = nextArgs, options = opts\<rparr>)
             (s\<lparr>mergeCalls := Suc (mergeCalls s)\<rparr>)
      else setPendingAdapterArgs mrg \<lparr>requestedAdapterArgs = nextArgs, options = opts\<rparr> s)"

definition handleDefaultFlags :: "Flags \<Rightarrow> ('a, 'n) Controller \<Rightarrow> ('a, 'n) Controller" where
  "handleDefaultFlags flags s =
     (if length (map fst flags) > 0
      then s\<lparr>emitted := emitted s @ [OnFlagsStateChange flags]\<rparr>
      else s)"

text \<open>
  A call of \<open>adapter.configure\<close> or \<open>adapter.reconfigure\<close>: the call is recorded and
  its promise is in flight until the event that settles it.
\<close>

definition callAdapter :: "'a AdapterCall \<Rightarrow> ('a, 'n) Controller \<Rightarrow> ('a, 'n) Controller" where
  "callAdapter c s = s\<lparr>inFlight := inFlight s @ [c], emitted := emitted s @ [Called c]\<rparr>"

text \<open>
  The \<open>.then\<close> handlers. Both \<open>configure\<close> calls (mount effect and props effect)
  install the first one, the \<open>reconfigure\<close> call installs the second. No call installs
  a rejection handler.
\<close>

definition configureResolved :: "('a, 'n) Controller \<Rightarrow> ('a, 'n) Controller" where
  "configureResolved s =
     (let s1 = setAdapterState CONFIGURED s
      in case pendingAdapterArgs s1 of
           Some p \<Rightarrow> applyAdapterArgs p s1
         | None \<Rightarrow> s1)"

definition reconfigureResolved :: "('a, 'n) Controller \<Rightarrow> ('a, 'n) Controller" where
  "reconfigureResolved s = setAdapterState CONFIGURED s"

section \<open>Effects of the component, in the order of their declaration\<close>

definition clearPendingEffect :: "('a, 'n) Controller \<Rightarrow> ('a, 'n) Controller" where
  "clearPendingEffect s = s\<lparr>pendingAdapterArgs := None\<rparr>"

definition mountEffect :: "('a, 'n) Controller \<Rightarrow> ('a, 'n) Controller" where
  "mountEffect s =
     (let s1 = (case defaultFlags (props s) of
                  Some flags \<Rightarrow> handleDefaultFlags flags s
                | None \<Rightarrow> s)
      in if \<not> shouldDeferAdapterConfiguration (props s1)
         then (let s2 = setAdapterState CONFIGURING s1
               in callAdapter (Configure (getAdapterArgsForConfiguration s2)) s2)
         else s1)"

definition adapterArgsEffect :: "'a Merge \<Rightarrow> ('a, 'n) Controller \<Rightarrow> ('a, 'n) Controller" where
  "adapterArgsEffect mrg s =
     reconfigureOrQueue mrg (adapterArgs (props s))
       \<lparr>shouldOverwrite = (adapterState s = CONFIGURED)\<rparr> s"

definition propsEffect :: "('a, 'n) Controller \<Rightarrow> ('a, 'n) Controller" where
  "propsEffect s =
     (let s1 = (if \<not> shouldDeferAdapterConfiguration (props s)
                   \<and> getDoesAdapterNeedInitialConfiguration s
                then (let s' = setAdapterState CONFIGURING s
                      in callAdapter (Configure (getAdapterArgsForConfiguration s')) s')
                else s)
      in if getIsAdapterConfigured s1
         then (let s' = setAdapterState CONFIGURING s1
               in callAdapter (Reconfigure (getAdapterArgsForConfiguration s')) s')
         else s1)"

section \<open>The life of a mounted controller\<close>

text \<open>
  React runs the component as follows, and the model follows it.
  \<^item> The first render initialises the state (\<open>useState(props.adapterArgs)\<close>, both refs)
    and runs all four effects in the order of their declaration.
  \<^item> A later render takes up the scheduled state value, if any. It comes either from
    the parent, with a new props object (\<open>Render (Some p)\<close>), or from the component's
    own state update, with the props object of the render before (\<open>Render None\<close>).
    After it an effect runs when one of its dependencies is not the same value as at the
    render before: the first effect depends on \<open>appliedAdapterArgs\<close>; the mount effect
    on nothing; the third on \<open>props.adapterArgs\<close> and \<open>reconfigureOrQueue\<close>, a
    \<open>useCallback\<close> that is a new function exactly when \<open>appliedAdapterArgs\<close> is a
    new value; the fourth on the props object. A render that gets a new props object
    with the values of the one before is \<open>Render (Some p)\<close> with \<open>p\<close> equal to the
    props before.
  \<^item> \<open>RequestReconfiguration\<close> is a call of the \<open>reconfigureOrQueue\<close> of the last
    render, which is the function the context hands out.
  \<^item> \<open>Resolve i\<close> and \<open>Reject i\<close> settle the promise at position \<open>i\<close> of
    \<open>inFlight\<close>. Resolution runs the \<open>.then\<close> handler; rejection runs nothing,
    since no call has a rejection handler.
\<close>

datatype ('a, 'n) Event =
    Render "('a, 'n) Props option"
  | RequestReconfiguration 'a AdapterReconfigurationOptions
  | Resolve nat
  | Reject nat

definition mount :: "'a Merge \<Rightarrow> ('a, 'n) Props \<Rightarrow> ('a, 'n) Controller" where
  "mount mrg p =
     propsEffect (adapterArgsEffect mrg (mountEffect (clearPendingEffect
       \<lparr>props = p,
        appliedAdapterArgs = adapterArgs p,
        scheduledAdapterArgs = None,
        pendingAdapterArgs = None,
        adapterState = UNCONFIGURED,
        mergeCalls = 0,
        inFlight = [],
        emitted = []\<rparr>)))"

definition rerender ::
  "'a Merge \<Rightarrow> ('a, 'n) Props option \<Rightarrow> ('a, 'n) Controller \<Rightarrow> ('a, 'n) Controller" where
  "rerender mrg newProps s =
     (let applied = (case scheduledAdapterArgs s of Some a \<Rightarrow> a | None \<Rightarrow> appliedAdapterArgs s);
          p = (case newProps of Some q \<Rightarrow> q | None \<Rightarrow> props s);
          appliedChanged = (applied \<noteq> appliedAdapterArgs s);
          adapterArgsChanged = (adapterArgs p \<noteq> adapterArgs (props s));
          propsChanged = (newProps \<noteq> None);
          s0 = s\<lparr>props := p, appliedAdapterArgs := applied, scheduledAdapterArgs := None\<rparr>;
          s1 = (if appliedChanged then clearPendingEffect s0 else s0);
          s3 = (if adapterArgsChanged \<or> appliedChanged then adapterArgsEffect mrg s1 else s1)
      in if propsChanged then propsEffect s3 else s3)"

definition settle ::
  "bool \<Rightarrow> nat \<Rightarrow> ('a, 'n) Controller \<Rightarrow> ('a, 'n) Controller" where
  "settle fulfilled i s =
     (if i < length (inFlight s)
      then (let s' = s\<lparr>inFlight := take i (inFlight s) @ drop (Suc i) (inFlight s)\<rparr>
            in if fulfilled
               then (case inFlight s ! i of
                       Configure a \<Rightarrow> configureResolved s'
                     | Reconfigure a \<Rightarrow> reconfigureResolved s')
               else s')
      else s)"

fun step :: "'a Merge \<Rightarrow> ('a, 'n) Event \<Rightarrow> ('a, 'n) Controller \<Rightarrow> ('a, 'n) Controller" where
  "step mrg (Render newProps) s = rerender mrg newProps s"
| "step mrg (RequestReconfiguration nextArgs opts) s = reconfigureOrQueue mrg nextArgs opts s"
| "step mrg (Resolve i) s = settle True i s"
| "step mrg (Reject i) s = settle False i s"

fun run :: "'a Merge \<Rightarrow> ('a, 'n) Event list \<Rightarrow> ('a, 'n) Controller \<Rightarrow> ('a, 'n) Controller" where
  "run mrg [] s = s"
| "run mrg (e # es) s = run mrg es (step mrg e s)"

fun isResolve :: "('a, 'n) Event \<Rightarrow> bool" where
  "isResolve (Resolve i) = True"
| "isResolve e = False"

section \<open>Rendering\<close>

text \<open>
  \<open>isFunctionChildren\<close> and \<open>isEmptyChildren\<close> come from \<^verbatim>\<open>./helpers\<close>, which is
  not among the sources.
\<close>








section \<open>Instances for concrete runs\<close>

text \<open>
  Objects with named fields are association lists without a repeated name.
  \<open>assignFields target source\<close> is the object \<open>{ ...target, ...source }\<close>: a field of
  the source replaces the field of the same name in place and is added at the end when
  the target has none.
\<close>

definition assignFields :: "('k \<times> 'v) list \<Rightarrow> ('k \<times> 'v) list \<Rightarrow> ('k \<times> 'v) list" where
  "assignFields target source = fold (\<lambda>(k, v). AList.update k v) source target"

text \<open>
  An adapter-arguments object of the concrete runs: its reference and its named fields.
  The objects the application passes in have the references \<open>Literal 0\<close>,
  \<open>Literal 1\<close>, ...; \<open>Merged n\<close> is the object that call number \<open>n\<close> of
  \<open>mergeAdapterArgs\<close> has built. Two objects are the same object exactly when their
  references are, so \<open>=\<close> on these pairs is \<open>Object.is\<close> in the runs below.
\<close>

datatype ObjectRef = Literal nat | Merged nat

type_synonym ArgsObject = "ObjectRef \<times> (string \<times> string) list"

text \<open>
  Modelled from the spec: \<open>mergeAdapterArgs\<close> of \<^verbatim>\<open>./helpers\<close> is missing. The spec
  has the incoming arguments replace the corresponding fields of the base when
  \<open>shouldOverwrite\<close> is true and be combined field by field with the base otherwise;
  in both cases the result holds the fields of the base that the request does not have,
  plus all fields of the request. The result is a new object. This instance of the merge
  parameter is used in the concrete runs only.
\<close>

definition mergeAdapterArgs :: "ArgsObject Merge" where
  "mergeAdapterArgs n previousAdapterArgs r =
     (Merged n, assignFields (snd previousAdapterArgs) (snd (requestedAdapterArgs r)))"

definition exampleProps :: "(ArgsObject, string) Props" where
  "exampleProps =
     \<lparr>shouldDeferAdapterConfiguration = False,
      adapterArgs = (Literal 0, [(''user'', ''foo'')]),
      adapterIsReady = False,
      defaultFlags = Some [],
      render = None,
      children = SingleChild (ElementNode ''App'')\<rparr>"

definition examplePropsBar :: "(ArgsObject, string) Props" where
  "examplePropsBar = exampleProps\<lparr>adapterArgs := (Literal 1, [(''user'', ''bar'')])\<rparr>"

definition exampleRequest :: "(ArgsObject, string) Event" where
  "exampleRequest =
     RequestReconfiguration (Literal 2, [(''group'', ''x'')]) \<lparr>shouldOverwrite = False\<rparr>"

text \<open>The fields of the objects in a record of calls, without their references.\<close>

definition emittedFields ::
  "ArgsObject Emitted list \<Rightarrow> (string \<times> string) list Emitted list" where
  "emittedFields es = map (map_Emitted snd) es"

section \<open>The invariant of the lifecycle\<close>

definition atMostOneInFlight :: "('a, 'n) Controller \<Rightarrow> bool" where
  "atMostOneInFlight s =
     (length (inFlight s) \<le> 1 \<and> (inFlight s \<noteq> [] \<longrightarrow> adapterState s = CONFIGURING))"

definition stalled :: "('a, 'n) Controller \<Rightarrow> bool" where
  "stalled s = (adapterState s = CONFIGURING \<and> inFlight s = [])"

section \<open>Flag normalizer\<close>

text \<open>
  The normalizer and the in-memory adapter are not among the sources; only the test
  suite of the adapter is. Both are modelled from the spec and from what the tests
  expect.
\<close>

definition isUpperCaseLetter :: "char \<Rightarrow> bool" where
  "isUpperCaseLetter c = (65 \<le> (of_char c :: nat) \<and> (of_char c :: nat) \<le> 90)"

definition isLowerCaseLetter :: "char \<Rightarrow> bool" where
  "isLowerCaseLetter c = (97 \<le> (of_char c :: nat) \<and> (of_char c :: nat) \<le> 122)"

definition isDigit :: "char \<Rightarrow> bool" where
  "isDigit c = (48 \<le> (of_char c :: nat) \<and> (of_char c :: nat) \<le> 57)"

definition isWordChar :: "char \<Rightarrow> bool" where
  "isWordChar c = (isLowerCaseLetter c \<or> isUpperCaseLetter c \<or> isDigit c)"

definition toUpperCase :: "char \<Rightarrow> char" where
  "toUpperCase c = (if isLowerCaseLetter c then char_of ((of_char c :: nat) - 32) else c)"

definition toLowerCase :: "char \<Rightarrow> char" where
  "toLowerCase c = (if isUpperCaseLetter c then char_of ((of_char c :: nat) + 32) else c)"

fun upperFirst :: "string \<Rightarrow> string" where
  "upperFirst [] = []"
| "upperFirst (c # cs) = toUpperCase c # cs"

fun lowerFirst :: "string \<Rightarrow> string" where
  "lowerFirst [] = []"
| "lowerFirst (c # cs) = toLowerCase c # cs"

text \<open>The words of a name: its maximal runs of letters and digits.\<close>

fun splitWords :: "string \<Rightarrow> string \<Rightarrow> string list" where
  "splitWords cur [] = (if cur = [] then [] else [cur])"
| "splitWords cur (c # cs) =
     (if isWordChar c then splitWords (cur @ [c]) cs
      else (if cur = [] then [] else [cur]) @ splitWords [] cs)"

text \<open>
  Modelled from the spec: the camel-casing of flag names is missing. The spec asks for
  camel-case keys and gives \<open>flag-a-1\<close> to \<open>flagA1\<close> and \<open>flag_b\<close> to \<open>flagB\<close>:
  the words of the name are joined, the first with a lower-case initial, the others
  with an upper-case initial.
\<close>

definition camelCase :: "string \<Rightarrow> string" where
  "camelCase name =
     (case splitWords [] name of
        [] \<Rightarrow> []
      | w # ws \<Rightarrow> lowerFirst w @ concat (map upperFirst ws))"

text \<open>
  Modelled from the spec: the coercion of flag values is missing. A boolean and a
  provider-defined variation stay; \<open>null\<close> becomes \<open>false\<close>.
\<close>

fun normalizeFlagValue :: "FlagValue \<Rightarrow> FlagValue" where
  "normalizeFlagValue FlagNull = FlagBool False"
| "normalizeFlagValue v = v"

text \<open>
  Modelled from the spec: the flag normalizer is missing. It builds a new object entry by
  entry; a later entry with the same canonical name replaces the value of the earlier.
\<close>

definition normalizeFlags :: "Flags \<Rightarrow> Flags" where
  "normalizeFlags rawFlags =
     fold (\<lambda>(name, v) acc. AList.update (camelCase name) (normalizeFlagValue v) acc)
       rawFlags []"

text \<open>
  A canonical flag set, stated without the normalizer: an object (no name twice) whose
  names are made of letters and digits and do not start with an upper-case letter, and
  whose values are not \<open>null\<close>.
\<close>

definition canonicalName :: "string \<Rightarrow> bool" where
  "canonicalName name =
     (list_all isWordChar name
      \<and> (case name of [] \<Rightarrow> True | c # cs \<Rightarrow> \<not> isUpperCaseLetter c))"

definition canonicalFlags :: "Flags \<Rightarrow> bool" where
  "canonicalFlags fs =
     (distinct (map fst fs)
      \<and> list_all (\<lambda>(name, v). canonicalName name \<and> v \<noteq> FlagNull) fs)"

section \<open>In-memory adapter\<close>

record AdapterStatus =
  isReady :: bool
  isConfigured :: bool

datatype AdapterNotification =
    FlagsStateChange Flags
  | StatusStateChange AdapterStatus

text \<open>
  The state of the adapter: its flags, the user of the last configuration, its status,
  the calls of \<open>onFlagsStateChange\<close> and \<open>onStatusStateChange\<close> it has made, and the
  conditions it has passed to \<open>invariant\<close>, oldest first.
\<close>

record 'u MemoryAdapter =
  flags :: Flags
  user :: "'u option"
  status :: AdapterStatus
  notifications :: "AdapterNotification list"
  invariantCalls :: "bool list"

definition initialMemoryAdapter :: "'u MemoryAdapter" where
  "initialMemoryAdapter =
     \<lparr>flags = [], user = None, status = \<lparr>isReady = False, isConfigured = False\<rparr>,
      notifications = [], invariantCalls = []\<rparr>"

text \<open>
  Modelled from the spec: \<open>configure\<close> of the in-memory adapter is missing. It applies
  the arguments and invokes the status and the flags callback for the state it starts
  from; the tests expect a status with \<open>isReady\<close> and \<open>isConfigured\<close> true.
\<close>

definition configure :: "'u \<Rightarrow> 'u MemoryAdapter \<Rightarrow> 'u MemoryAdapter" where
  "configure args st =
     st\<lparr>user := Some args,
        status := \<lparr>isReady = True, isConfigured = True\<rparr>,
        notifications := notifications st @
          [StatusStateChange \<lparr>isReady = True, isConfigured = True\<rparr>,
           FlagsStateChange (flags st)]\<rparr>"

text \<open>
  Modelled from the spec: \<open>updateFlags\<close> of the in-memory adapter is missing. Mutating
  flags before configuration completes is a contract violation, signalled through the
  assertion mechanism and not fatal: \<open>invariant\<close> is called with the condition, and
  the flags change and the callback fires only when the condition holds.
\<close>

definition updateFlags :: "Flags \<Rightarrow> 'u MemoryAdapter \<Rightarrow> 'u MemoryAdapter" where
  "updateFlags newFlags st =
     (let isAdapterConfigured = isConfigured (status st);
          st1 = st\<lparr>invariantCalls := invariantCalls st @ [isAdapterConfigured]\<rparr>
      in if isAdapterConfigured
         then (let nextFlags = assignFields (flags st) (normalizeFlags newFlags)
               in st1\<lparr>flags := nextFlags,
                      notifications := notifications st @ [FlagsStateChange nextFlags]\<rparr>)
         else st1)"

text \<open>
  Modelled from the spec: \<open>reset\<close> of the in-memory adapter is missing. It clears the
  flags and fires no notification.
\<close>

definition reset :: "'u MemoryAdapter \<Rightarrow> 'u MemoryAdapter" where
  "reset st = st\<lparr>flags := []\<rparr>"

text \<open>
  Modelled from the spec: \<open>getFlag\<close> of the in-memory adapter is missing. \<open>None\<close> is
  \<open>undefined\<close>.
\<close>

definition getFlag :: "string \<Rightarrow> 'u MemoryAdapter \<Rightarrow> FlagValue option" where
  "getFlag flagName st = map_of (flags st) flagName"
section \<open>Lemmas on the controller\<close>

lemmas callback_defs =
  setAdapterState_def applyAdapterArgs_def getIsAdapterConfigured_def
  getDoesAdapterNeedInitialConfiguration_def getAdapterArgsForConfiguration_def
  setPendingAdapterArgs_def reconfigureOrQueue_def handleDefaultFlags_def callAdapter_def
  configureResolved_def reconfigureResolved_def

lemmas effect_defs =
  clearPendingEffect_def mountEffect_def adapterArgsEffect_def propsEffect_def

lemmas run_defs = mount_def rerender_def settle_def

lemmas example_defs =
  mergeAdapterArgs_def exampleProps_def examplePropsBar_def exampleRequest_def
  assignFields_def emittedFields_def

lemma reconfigureOrQueue_frame:
  "inFlight (reconfigureOrQueue mrg n opts s) = inFlight s"
  "adapterState (reconfigureOrQueue mrg n opts s) = adapterState s"
  "emitted (reconfigureOrQueue mrg n opts s) = emitted s"
  "props (reconfigureOrQueue mrg n opts s) = props s"
  "appliedAdapterArgs (reconfigureOrQueue mrg n opts s) = appliedAdapterArgs s"
  by (simp_all add: callback_defs)

lemma adapterArgsEffect_frame:
  "inFlight (adapterArgsEffect mrg s) = inFlight s"
  "adapterState (adapterArgsEffect mrg s) = adapterState s"
  "emitted (adapterArgsEffect mrg s) = emitted s"
  "props (adapterArgsEffect mrg s) = props s"
  "appliedAdapterArgs (adapterArgsEffect mrg s) = appliedAdapterArgs s"
  by (simp_all add: adapterArgsEffect_def reconfigureOrQueue_frame)

lemma clearPendingEffect_frame:
  "inFlight (clearPendingEffect s) = inFlight s"
  "adapterState (clearPendingEffect s) = adapterState s"
  "emitted (clearPendingEffect s) = emitted s"
  "props (clearPendingEffect s) = props s"
  "appliedAdapterArgs (clearPendingEffect s) = appliedAdapterArgs s"
  by (simp_all add: clearPendingEffect_def)

lemma propsEffect_inv: "atMostOneInFlight s \<Longrightarrow> atMostOneInFlight (propsEffect s)"
  by (cases "adapterState s")
     (auto simp: atMostOneInFlight_def propsEffect_def callback_defs Let_def)

lemma propsEffect_configuring: "adapterState s = CONFIGURING \<Longrightarrow> propsEffect s = s"
  by (simp add: propsEffect_def callback_defs)

lemma rerender_inv: "atMostOneInFlight s \<Longrightarrow> atMostOneInFlight (rerender mrg np s)"
proof -
  assume a: "atMostOneInFlight s"
  have b: "\<And>t. inFlight t = inFlight s \<Longrightarrow> adapterState t = adapterState s
             \<Longrightarrow> atMostOneInFlight t"
    using a by (simp add: atMostOneInFlight_def)
  show ?thesis
    unfolding rerender_def Let_def
    by (auto intro!: propsEffect_inv b simp: adapterArgsEffect_frame clearPendingEffect_frame)
qed

lemma settle_inv: "atMostOneInFlight s \<Longrightarrow> atMostOneInFlight (settle b i s)"
  by (auto simp: atMostOneInFlight_def settle_def callback_defs Let_def
           split: AdapterCall.splits option.splits)

lemma step_inv: "atMostOneInFlight s \<Longrightarrow> atMostOneInFlight (step mrg e s)"
proof (cases e)
  case (RequestReconfiguration n opts)
  assume "atMostOneInFlight s"
  then show ?thesis
    using RequestReconfiguration by (simp add: atMostOneInFlight_def reconfigureOrQueue_frame)
qed (simp_all add: rerender_inv settle_inv)

lemma run_inv: "atMostOneInFlight s \<Longrightarrow> atMostOneInFlight (run mrg es s)"
  by (induction es arbitrary: s) (simp_all add: step_inv)

lemma mount_inv: "atMostOneInFlight (mount mrg p)"
  unfolding mount_def
  by (rule propsEffect_inv)
     (simp add: atMostOneInFlight_def adapterArgsEffect_frame mountEffect_def
        clearPendingEffect_def callback_defs Let_def split: option.splits)

lemma reachable_inv: "atMostOneInFlight (run mrg es (mount mrg p))"
  by (rule run_inv) (rule mount_inv)

lemma rerender_configuring:
  "adapterState s = CONFIGURING \<Longrightarrow>
     adapterState (rerender mrg np s) = CONFIGURING
     \<and> emitted (rerender mrg np s) = emitted s
     \<and> inFlight (rerender mrg np s) = inFlight s"
  unfolding rerender_def Let_def
  by (simp add: propsEffect_configuring adapterArgsEffect_frame clearPendingEffect_frame)

lemma step_configuring:
  "adapterState s = CONFIGURING \<Longrightarrow> \<not> isResolve e \<Longrightarrow>
     adapterState (step mrg e s) = CONFIGURING \<and> emitted (step mrg e s) = emitted s"
  by (cases e)
     (simp_all add: rerender_configuring reconfigureOrQueue_frame settle_def Let_def)

lemma run_configuring:
  "adapterState s = CONFIGURING \<Longrightarrow> \<forall>e \<in> set es. \<not> isResolve e \<Longrightarrow>
     adapterState (run mrg es s) = CONFIGURING \<and> emitted (run mrg es s) = emitted s"
proof (induction es arbitrary: s)
  case Nil
  then show ?case by simp
next
  case (Cons e es)
  then show ?case using step_configuring [of s e mrg] by simp
qed

lemma step_stalled:
  "stalled s \<Longrightarrow> stalled (step mrg e s) \<and> emitted (step mrg e s) = emitted s"
  by (cases e)
     (simp_all add: stalled_def rerender_configuring reconfigureOrQueue_frame settle_def)

lemma run_stalled:
  "stalled s \<Longrightarrow> stalled (run mrg es s) \<and> emitted (run mrg es s) = emitted s"
proof (induction es arbitrary: s)
  case Nil
  then show ?case by simp
next
  case (Cons e es)
  then show ?case using step_stalled [of s mrg e] by simp
qed

lemma rerender_for_state_update:
  "emitted (rerender mrg None s) = emitted s"
  "adapterState (rerender mrg None s) = adapterState s"
  "inFlight (rerender mrg None s) = inFlight s"
  by (simp_all add: rerender_def Let_def adapterArgsEffect_frame clearPendingEffect_frame)

lemma step_calls_from_idle:
  assumes "atMostOneInFlight s" and "emitted (step mrg e s) \<noteq> emitted s"
  shows "inFlight s = []"
proof (rule ccontr)
  assume "inFlight s \<noteq> []"
  with assms(1) have c: "adapterState s = CONFIGURING"
    by (simp add: atMostOneInFlight_def)
  show False
  proof (cases "isResolve e")
    case True
    then obtain i where "e = Resolve i" by (cases e) simp_all
    then have "emitted (step mrg e s) = emitted s"
      by (simp add: settle_def callback_defs Let_def split: AdapterCall.split option.split)
    with assms(2) show False by simp
  next
    case False
    with c assms(2) step_configuring [of s e mrg] show False by simp
  qed
qed

lemma reject_only_promise:
  assumes "atMostOneInFlight s" and "i < length (inFlight s)"
  shows "step mrg (Reject i) s = s\<lparr>inFlight := []\<rparr>" and "adapterState s = CONFIGURING"
proof -
  from assms have i: "i = 0" and l: "length (inFlight s) = 1" and ne: "inFlight s \<noteq> []"
    by (auto simp: atMostOneInFlight_def)
  from l obtain c where "inFlight s = [c]" by (cases "inFlight s") auto
  with i show "step mrg (Reject i) s = s\<lparr>inFlight := []\<rparr>"
    by (simp add: settle_def)
  from assms(1) ne show "adapterState s = CONFIGURING"
    by (simp add: atMostOneInFlight_def)
qed

section \<open>Claims on the controller\<close>

text \<open>
  C1: from the mount on and after any sequence of events, at most one adapter promise is
  in flight, and while one is in flight the state is \<open>CONFIGURING\<close>. In that state no
  sequence of reconfiguration requests, renders and rejections makes the controller call
  the adapter (or the flags callback): the record of its calls stays as it is until a
  promise resolves. Every event at which the controller does call the adapter finds no
  promise in flight.
\<close>

theorem at_most_one_adapter_call_in_flight:
  "length (inFlight (run mrg es (mount mrg p))) \<le> 1
   \<and> (inFlight (run mrg es (mount mrg p)) \<noteq> []
        \<longrightarrow> adapterState (run mrg es (mount mrg p)) = CONFIGURING)
   \<and> (adapterState (run mrg es (mount mrg p)) = CONFIGURING
        \<and> (\<forall>e \<in> set rs. \<not> isResolve e)
        \<longrightarrow> emitted (run mrg rs (run mrg es (mount mrg p)))
              = emitted (run mrg es (mount mrg p)))
   \<and> (emitted (step mrg e (run mrg es (mount mrg p))) \<noteq> emitted (run mrg es (mount mrg p))
        \<longrightarrow> inFlight (run mrg es (mount mrg p)) = [])"
  using reachable_inv [of mrg es p] run_configuring [of "run mrg es (mount mrg p)" rs mrg]
        step_calls_from_idle [OF reachable_inv [of mrg es p], of mrg e]
  by (simp add: atMostOneInFlight_def)

theorem at_most_one_adapter_call_in_flight_witness:
  "inFlight (run mergeAdapterArgs [] (mount mergeAdapterArgs exampleProps))
     = [Configure (Literal 0, [(''user'', ''foo'')])]
   \<and> adapterState (run mergeAdapterArgs [] (mount mergeAdapterArgs exampleProps)) = CONFIGURING
   \<and> list_all (\<lambda>e. \<not> isResolve e)
        [exampleRequest, Render (Some examplePropsBar), exampleRequest, Render None]
   \<and> emitted (run mergeAdapterArgs
        [exampleRequest, Render (Some examplePropsBar), exampleRequest, Render None]
        (run mergeAdapterArgs [] (mount mergeAdapterArgs exampleProps)))
       = [Called (Configure (Literal 0, [(''user'', ''foo'')]))]"
proof -
  have m: "inFlight (run mergeAdapterArgs [] (mount mergeAdapterArgs exampleProps))
             = [Configure (Literal 0, [(''user'', ''foo'')])]"
    by (simp add: callback_defs effect_defs run_defs example_defs Let_def)
  have c: "adapterState (run mergeAdapterArgs [] (mount mergeAdapterArgs exampleProps))
             = CONFIGURING"
    by (simp add: callback_defs effect_defs run_defs example_defs Let_def)
  have r: "\<forall>e \<in> set [exampleRequest, Render (Some examplePropsBar), exampleRequest, Render None].
             \<not> isResolve e"
    by (simp add: exampleRequest_def)
  have e: "emitted (run mergeAdapterArgs [] (mount mergeAdapterArgs exampleProps))
             = [Called (Configure (Literal 0, [(''user'', ''foo'')]))]"
    by (simp add: callback_defs effect_defs run_defs example_defs Let_def)
  from at_most_one_adapter_call_in_flight
         [of mergeAdapterArgs "[]" exampleProps
             "[exampleRequest, Render (Some examplePropsBar), exampleRequest, Render None]"]
       m c r e
  show ?thesis unfolding list_all_iff by metis
qed

text \<open>
  C2 does not hold of the code. The example runs the controller to a settled
  \<open>CONFIGURED\<close> state (the configuration has resolved and the component has rendered
  again), delivers the reconfiguration request \<open>{ group: 'x' }\<close> and lets the component
  render again for the state update the request has made. The request is merged into
  the applied arguments, but no \<open>reconfigure\<close> call is made and the state is still
  \<open>CONFIGURED\<close>: the only adapter call on record is the \<open>configure\<close> call of the
  mount, and nothing is in flight. The effect that calls \<open>adapter.reconfigure\<close>
  depends on the props object and does not run at a render for a state update: by
  \<open>rerender_for_state_update\<close> such a render calls nothing and keeps the lifecycle
  state, whatever the merge helper does.
\<close>

theorem request_while_configured_calls_no_adapter:
  "adapterState (run mergeAdapterArgs [Resolve 0, Render None]
       (mount mergeAdapterArgs exampleProps)) = CONFIGURED
   \<and> inFlight (run mergeAdapterArgs [Resolve 0, Render None]
       (mount mergeAdapterArgs exampleProps)) = []
   \<and> snd (appliedAdapterArgs (run mergeAdapterArgs
       [Resolve 0, Render None, exampleRequest, Render None]
       (mount mergeAdapterArgs exampleProps)))
     = [(''user'', ''foo''), (''group'', ''x'')]
   \<and> adapterState (run mergeAdapterArgs
       [Resolve 0, Render None, exampleRequest, Render None]
       (mount mergeAdapterArgs exampleProps)) = CONFIGURED
   \<and> emitted (run mergeAdapterArgs
       [Resolve 0, Render None, exampleRequest, Render None]
       (mount mergeAdapterArgs exampleProps))
     = [Called (Configure (Literal 0, [(''user'', ''foo'')]))]
   \<and> inFlight (run mergeAdapterArgs
       [Resolve 0, Render None, exampleRequest, Render None]
       (mount mergeAdapterArgs exampleProps)) = []
   \<and> emitted (run mergeAdapterArgs
       [Resolve 0, Render None, exampleRequest, Render None, Render None, Render None]
       (mount mergeAdapterArgs exampleProps))
     = [Called (Configure (Literal 0, [(''user'', ''foo'')]))]"
  by (simp add: callback_defs effect_defs run_defs example_defs Let_def)

text \<open>
  C3 does not hold of the code. In the example the configuration resolves, the parent
  renders with new adapter arguments \<open>{ user: 'bar' }\<close> (which starts a
  \<open>reconfigure\<close> call and schedules the new applied arguments), and the request
  \<open>{ group: 'x' }\<close> arrives and is merged into the pending arguments. The render that
  takes up the new applied arguments then runs the clearing effect, which drops that
  pending value although it was not promoted, and the effect on \<open>props.adapterArgs\<close>
  seeds a new pending value from the new applied arguments alone. Afterwards
  \<open>group\<close> is neither applied nor scheduled nor pending, and no adapter call has
  carried it.
\<close>

theorem queued_request_dropped_by_render:
  "adapterState (run mergeAdapterArgs
       [Resolve 0, Render None, Render (Some examplePropsBar), exampleRequest]
       (mount mergeAdapterArgs exampleProps)) = CONFIGURING
   \<and> map_option snd (pendingAdapterArgs (run mergeAdapterArgs
       [Resolve 0, Render None, Render (Some examplePropsBar), exampleRequest]
       (mount mergeAdapterArgs exampleProps)))
     = Some [(''user'', ''foo''), (''group'', ''x'')]
   \<and> map_option snd (pendingAdapterArgs (run mergeAdapterArgs
       [Resolve 0, Render None, Render (Some examplePropsBar), exampleRequest, Render None]
       (mount mergeAdapterArgs exampleProps)))
     = Some [(''user'', ''bar'')]
   \<and> snd (appliedAdapterArgs (run mergeAdapterArgs
       [Resolve 0, Render None, Render (Some examplePropsBar), exampleRequest, Render None]
       (mount mergeAdapterArgs exampleProps)))
     = [(''user'', ''bar'')]
   \<and> scheduledAdapterArgs (run mergeAdapterArgs
       [Resolve 0, Render None, Render (Some examplePropsBar), exampleRequest, Render None]
       (mount mergeAdapterArgs exampleProps))
     = None
   \<and> emittedFields (emitted (run mergeAdapterArgs
       [Resolve 0, Render None, Render (Some examplePropsBar), exampleRequest, Render None]
       (mount mergeAdapterArgs exampleProps)))
     = [Called (Configure [(''user'', ''foo'')]), Called (Reconfigure [(''user'', ''foo'')])]"
  by (simp add: callback_defs effect_defs run_defs example_defs Let_def)

text \<open>
  C4 does not hold of the code, in two ways. First, when a \<open>reconfigure\<close> call
  resolves, the state goes from \<open>CONFIGURING\<close> to \<open>CONFIGURED\<close> and an existing
  pending value is not promoted: in the first run a request arrives while a
  \<open>reconfigure\<close> call is in flight, and after the resolution its value is still
  pending, nothing is scheduled and the applied arguments are the old ones (the value
  is only read later, as the argument of the next \<open>reconfigure\<close> call, when the parent
  renders again). Second, when
  the \<open>configure\<close> call resolves with a pending value, the value is promoted and the
  render that follows clears the pending cell, but no \<open>reconfigure\<close> call follows: in
  the second run a request arrives during the initial configuration, and after the
  promotion has been rendered the only adapter call on record is the \<open>configure\<close>
  call of the mount.
\<close>

theorem resolution_without_reconfigure_cycle:
  "adapterState (run mergeAdapterArgs
       [Resolve 0, Render None, Render (Some exampleProps), Render None, exampleRequest]
       (mount mergeAdapterArgs exampleProps)) = CONFIGURING
   \<and> emittedFields (emitted (run mergeAdapterArgs
       [Resolve 0, Render None, Render (Some exampleProps), Render None, exampleRequest]
       (mount mergeAdapterArgs exampleProps)))
     = [Called (Configure [(''user'', ''foo'')]), Called (Reconfigure [(''user'', ''foo'')])]
   \<and> map_option snd (pendingAdapterArgs (run mergeAdapterArgs
       [Resolve 0, Render None, Render (Some exampleProps), Render None, exampleRequest]
       (mount mergeAdapterArgs exampleProps)))
     = Some [(''user'', ''foo''), (''group'', ''x'')]
   \<and> adapterState (run mergeAdapterArgs
       [Resolve 0, Render None, Render (Some exampleProps), Render None, exampleRequest,
        Resolve 0]
       (mount mergeAdapterArgs exampleProps)) = CONFIGURED
   \<and> map_option snd (pendingAdapterArgs (run mergeAdapterArgs
       [Resolve 0, Render None, Render (Some exampleProps), Render None, exampleRequest,
        Resolve 0]
       (mount mergeAdapterArgs exampleProps)))
     = Some [(''user'', ''foo''), (''group'', ''x'')]
   \<and> scheduledAdapterArgs (run mergeAdapterArgs
       [Resolve 0, Render None, Render (Some exampleProps), Render None, exampleRequest,
        Resolve 0]
       (mount mergeAdapterArgs exampleProps)) = None
   \<and> snd (appliedAdapterArgs (run mergeAdapterArgs
       [Resolve 0, Render None, Render (Some exampleProps), Render None, exampleRequest,
        Resolve 0]
       (mount mergeAdapterArgs exampleProps))) = [(''user'', ''foo'')]
   \<and> emittedFields (emitted (run mergeAdapterArgs
       [Resolve 0, Render None, Render (Some exampleProps), Render None, exampleRequest,
        Resolve 0, Render (Some exampleProps)]
       (mount mergeAdapterArgs exampleProps)))
     = [Called (Configure [(''user'', ''foo'')]), Called (Reconfigure [(''user'', ''foo'')]),
        Called (Reconfigure [(''user'', ''foo''), (''group'', ''x'')])]
   \<and> map_option snd (pendingAdapterArgs (run mergeAdapterArgs [exampleRequest]
       (mount mergeAdapterArgs exampleProps)))
     = Some [(''user'', ''foo''), (''group'', ''x'')]
   \<and> map_option snd (scheduledAdapterArgs (run mergeAdapterArgs [exampleRequest, Resolve 0]
       (mount mergeAdapterArgs exampleProps)))
     = Some [(''user'', ''foo''), (''group'', ''x'')]
   \<and> snd (appliedAdapterArgs (run mergeAdapterArgs [exampleRequest, Resolve 0, Render None]
       (mount mergeAdapterArgs exampleProps)))
     = [(''user'', ''foo''), (''group'', ''x'')]
   \<and> pendingAdapterArgs (run mergeAdapterArgs [exampleRequest, Resolve 0, Render None]
       (mount mergeAdapterArgs exampleProps)) = None
   \<and> adapterState (run mergeAdapterArgs [exampleRequest, Resolve 0, Render None]
       (mount mergeAdapterArgs exampleProps)) = CONFIGURED
   \<and> emitted (run mergeAdapterArgs [exampleRequest, Resolve 0, Render None]
       (mount mergeAdapterArgs exampleProps))
     = [Called (Configure (Literal 0, [(''user'', ''foo'')]))]
   \<and> emitted (run mergeAdapterArgs [exampleRequest, Resolve 0, Render None, Render None]
       (mount mergeAdapterArgs exampleProps))
     = [Called (Configure (Literal 0, [(''user'', ''foo'')]))]"
  by (simp add: callback_defs effect_defs run_defs example_defs Let_def)




text \<open>
  C6: when the controller mounts with default flag values (a flags object that is not
  empty), the first thing it does is to pass them to \<open>onFlagsStateChange\<close>, whether
  the configuration of the adapter is deferred or not: the callback comes before the
  \<open>configure\<close> call, and it is all the controller does when the configuration is
  deferred. (The empty object, which is what \<open>defaultProps\<close> makes of an omitted prop,
  holds no flag value and is not published.)
\<close>

theorem default_flags_published_at_mount:
  assumes "defaultFlags p = Some defaults" and "defaults \<noteq> []"
  shows "emitted (mount mrg p)
           = OnFlagsStateChange defaults #
             (if shouldDeferAdapterConfiguration p then []
              else [Called (Configure (adapterArgs p))])"
  using assms by (simp add: mount_def effect_defs callback_defs Let_def)

theorem default_flags_published_at_mount_witness:
  "emitted (mount mergeAdapterArgs
       (exampleProps\<lparr>defaultFlags := Some [(''fooFlag'', FlagBool True)]\<rparr>))
     = [OnFlagsStateChange [(''fooFlag'', FlagBool True)],
        Called (Configure (Literal 0, [(''user'', ''foo'')]))]
   \<and> emitted (mount mergeAdapterArgs
       (exampleProps\<lparr>defaultFlags := Some [(''fooFlag'', FlagBool True)],
                      shouldDeferAdapterConfiguration := True\<rparr>))
     = [OnFlagsStateChange [(''fooFlag'', FlagBool True)]]"
proof -
  have ne: "[(''fooFlag'', FlagBool True)] \<noteq> []" by simp
  have d1: "defaultFlags (exampleProps\<lparr>defaultFlags := Some [(''fooFlag'', FlagBool True)]\<rparr>)
              = Some [(''fooFlag'', FlagBool True)]" by simp
  have d2: "defaultFlags (exampleProps\<lparr>defaultFlags := Some [(''fooFlag'', FlagBool True)],
                      shouldDeferAdapterConfiguration := True\<rparr>)
              = Some [(''fooFlag'', FlagBool True)]" by simp
  show ?thesis
    using default_flags_published_at_mount [OF d1 ne, of mergeAdapterArgs]
          default_flags_published_at_mount [OF d2 ne, of mergeAdapterArgs]
    by (simp add: exampleProps_def)
qed

text \<open>
  C7: when the promise of an adapter call is rejected, no handler of the controller
  runs: the step only takes the promise out of flight. From then on the controller
  stays in \<open>CONFIGURING\<close> whatever happens (requests, renders, settlings), and it
  never calls the adapter or the flags callback again: nothing is retried and nothing
  is reported.
\<close>

theorem rejection_leaves_configuring:
  assumes "i < length (inFlight (run mrg es (mount mrg p)))"
  shows "step mrg (Reject i) (run mrg es (mount mrg p))
           = (run mrg es (mount mrg p))\<lparr>inFlight := []\<rparr>
         \<and> adapterState (run mrg rs (step mrg (Reject i) (run mrg es (mount mrg p))))
           = CONFIGURING
         \<and> emitted (run mrg rs (step mrg (Reject i) (run mrg es (mount mrg p))))
           = emitted (run mrg es (mount mrg p))"
proof -
  let ?s = "run mrg es (mount mrg p)"
  have inv: "atMostOneInFlight ?s" by (rule reachable_inv)
  have r: "step mrg (Reject i) ?s = ?s\<lparr>inFlight := []\<rparr>"
    and c: "adapterState ?s = CONFIGURING"
    using reject_only_promise [OF inv assms] by simp_all
  have "stalled (?s\<lparr>inFlight := []\<rparr>)" using c by (simp add: stalled_def)
  from run_stalled [OF this, of mrg rs] show ?thesis
    by (simp add: r stalled_def del: step.simps)
qed

theorem rejection_leaves_configuring_witness:
  "inFlight (run mergeAdapterArgs [] (mount mergeAdapterArgs exampleProps))
     = [Configure (Literal 0, [(''user'', ''foo'')])]
   \<and> adapterState (run mergeAdapterArgs
       [exampleRequest, Render (Some examplePropsBar), Resolve 0, Render None]
       (step mergeAdapterArgs (Reject 0)
          (run mergeAdapterArgs [] (mount mergeAdapterArgs exampleProps))))
     = CONFIGURING
   \<and> emitted (run mergeAdapterArgs
       [exampleRequest, Render (Some examplePropsBar), Resolve 0, Render None]
       (step mergeAdapterArgs (Reject 0)
          (run mergeAdapterArgs [] (mount mergeAdapterArgs exampleProps))))
     = [Called (Configure (Literal 0, [(''user'', ''foo'')]))]"
proof -
  have f: "inFlight (run mergeAdapterArgs [] (mount mergeAdapterArgs exampleProps))
             = [Configure (Literal 0, [(''user'', ''foo'')])]"
    by (simp add: callback_defs effect_defs run_defs example_defs Let_def)
  have e: "emitted (run mergeAdapterArgs [] (mount mergeAdapterArgs exampleProps))
             = [Called (Configure (Literal 0, [(''user'', ''foo'')]))]"
    by (simp add: callback_defs effect_defs run_defs example_defs Let_def)
  have l: "0 < length (inFlight (run mergeAdapterArgs [] (mount mergeAdapterArgs exampleProps)))"
    using f by simp
  note t = rejection_leaves_configuring
             [OF l, of "[exampleRequest, Render (Some examplePropsBar), Resolve 0, Render None]",
              THEN conjunct2]
  from t [THEN conjunct1] t [THEN conjunct2] f show ?thesis
    by (simp only: e)
qed

section \<open>Lemmas on the flag normalizer\<close>

lemma toLowerCase_not_upper: "\<not> isUpperCaseLetter (toLowerCase c)"
  by (auto simp: toLowerCase_def isUpperCaseLetter_def)

lemma toLowerCase_word: "isWordChar c \<Longrightarrow> isWordChar (toLowerCase c)"
  by (auto simp: toLowerCase_def isWordChar_def isUpperCaseLetter_def isLowerCaseLetter_def
        isDigit_def)

lemma toUpperCase_word: "isWordChar c \<Longrightarrow> isWordChar (toUpperCase c)"
  by (auto simp: toUpperCase_def isWordChar_def isUpperCaseLetter_def isLowerCaseLetter_def
        isDigit_def)

lemma toLowerCase_id: "\<not> isUpperCaseLetter c \<Longrightarrow> toLowerCase c = c"
  by (simp add: toLowerCase_def)

lemma splitWords_word:
  "list_all isWordChar name \<Longrightarrow>
     splitWords cur name = (if cur @ name = [] then [] else [cur @ name])"
  by (induction name arbitrary: cur) auto

lemma splitWords_all_word:
  "list_all isWordChar cur \<Longrightarrow> list_all (list_all isWordChar) (splitWords cur name)"
  by (induction name arbitrary: cur) auto

lemma splitWords_nonempty: "[] \<notin> set (splitWords cur name)"
  by (induction name arbitrary: cur) auto

lemma upperFirst_word: "list_all isWordChar w \<Longrightarrow> list_all isWordChar (upperFirst w)"
  by (cases w) (simp_all add: toUpperCase_word)

lemma concat_upperFirst_word:
  "list_all (list_all isWordChar) ws \<Longrightarrow> list_all isWordChar (concat (map upperFirst ws))"
  by (induction ws) (simp_all add: upperFirst_word)

lemma camelCase_canonical: "canonicalName (camelCase name)"
proof (cases "splitWords [] name")
  case Nil
  then show ?thesis by (simp add: camelCase_def canonicalName_def)
next
  case (Cons w ws)
  have all: "list_all (list_all isWordChar) (w # ws)"
    using splitWords_all_word [of "[]" name] Cons by simp
  have "w \<noteq> []" using splitWords_nonempty [of "[]" name] Cons by auto
  then obtain c cs where w: "w = c # cs" by (cases w) auto
  show ?thesis
    using all w Cons
    by (simp add: camelCase_def canonicalName_def toLowerCase_word toLowerCase_not_upper
          concat_upperFirst_word)
qed

lemma camelCase_of_canonical: "canonicalName name \<Longrightarrow> camelCase name = name"
  by (cases name) (auto simp: camelCase_def canonicalName_def splitWords_word toLowerCase_id)

lemma update_fresh: "k \<notin> fst ` set al \<Longrightarrow> AList.update k v al = al @ [(k, v)]"
  by (induction al) auto

lemma normalizeFlagValue_id: "v \<noteq> FlagNull \<Longrightarrow> normalizeFlagValue v = v"
  by (cases v) simp_all

lemma normalizeFlagValue_not_null: "normalizeFlagValue v \<noteq> FlagNull"
  by (cases v) simp_all

lemma fold_canonical:
  "canonicalFlags fs \<Longrightarrow> fst ` set acc \<inter> fst ` set fs = {} \<Longrightarrow>
     fold (\<lambda>(name, v) acc. AList.update (camelCase name) (normalizeFlagValue v) acc) fs acc
       = acc @ fs"
proof (induction fs arbitrary: acc)
  case Nil
  then show ?case by simp
next
  case (Cons kv fs)
  obtain k v where kv: "kv = (k, v)" by (cases kv)
  from Cons.prems kv have ck: "canonicalName k" and nv: "v \<noteq> FlagNull"
    and rest: "canonicalFlags fs" and kfs: "k \<notin> fst ` set fs" and kacc: "k \<notin> fst ` set acc"
    and disj: "fst ` set acc \<inter> fst ` set fs = {}"
    by (auto simp: canonicalFlags_def)
  have upd: "AList.update (camelCase k) (normalizeFlagValue v) acc = acc @ [(k, v)]"
    using ck nv kacc by (simp add: camelCase_of_canonical normalizeFlagValue_id update_fresh)
  have "fst ` set (acc @ [(k, v)]) \<inter> fst ` set fs = {}"
    using disj kfs by auto
  from Cons.IH [OF rest this] show ?case
    using kv upd by simp
qed

lemma normalizeFlags_of_canonical: "canonicalFlags fs \<Longrightarrow> normalizeFlags fs = fs"
  using fold_canonical [of fs "[]"] by (simp add: normalizeFlags_def)

lemma update_canonical:
  "canonicalFlags acc \<Longrightarrow> canonicalName k \<Longrightarrow> v \<noteq> FlagNull \<Longrightarrow>
     canonicalFlags (AList.update k v acc)"
proof (induction acc)
  case Nil
  then show ?case by (simp add: canonicalFlags_def)
next
  case (Cons a acc)
  then show ?case
    by (cases a) (auto simp: canonicalFlags_def distinct_update update_keys split: if_splits)
qed

lemma fold_keeps_canonical:
  "canonicalFlags acc \<Longrightarrow>
     canonicalFlags
       (fold (\<lambda>(name, v) acc. AList.update (camelCase name) (normalizeFlagValue v) acc) fs acc)"
proof (induction fs arbitrary: acc)
  case Nil
  then show ?case by simp
next
  case (Cons kv fs)
  then show ?case
    by (cases kv) (simp add: update_canonical camelCase_canonical normalizeFlagValue_not_null)
qed

lemma normalizeFlags_canonical: "canonicalFlags (normalizeFlags fs)"
  unfolding normalizeFlags_def by (rule fold_keeps_canonical) (simp add: canonicalFlags_def)

lemma normalizeFlags_example:
  "normalizeFlags [(''flag-a-1'', FlagBool False), (''flag_b'', FlagNull)]
     = [(''flagA1'', FlagBool False), (''flagB'', FlagBool False)]"
  by code_simp

section \<open>Claims on the flag normalizer and the in-memory adapter\<close>

text \<open>
  C8: the flag normalizer is a function defined on every flag set (no input is
  rejected). Its result is always canonical, so normalizing twice is normalizing once;
  a canonical flag set is returned unchanged; \<open>null\<close> is coerced to \<open>false\<close>; and
  \<open>{ 'flag-a-1': false, flag_b: null }\<close> becomes \<open>{ flagA1: false, flagB: false }\<close>.
\<close>

theorem flag_normalization_idempotent:
  "canonicalFlags (normalizeFlags fs)
   \<and> normalizeFlags (normalizeFlags fs) = normalizeFlags fs
   \<and> (canonicalFlags fs \<longrightarrow> normalizeFlags fs = fs)
   \<and> normalizeFlags [(name, FlagNull)] = [(camelCase name, FlagBool False)]
   \<and> normalizeFlags [(''flag-a-1'', FlagBool False), (''flag_b'', FlagNull)]
       = [(''flagA1'', FlagBool False), (''flagB'', FlagBool False)]"
proof (intro conjI impI)
  show "canonicalFlags (normalizeFlags fs)" by (rule normalizeFlags_canonical)
  show "normalizeFlags (normalizeFlags fs) = normalizeFlags fs"
    by (rule normalizeFlags_of_canonical) (rule normalizeFlags_canonical)
  show "normalizeFlags fs = fs" if "canonicalFlags fs"
    using that by (rule normalizeFlags_of_canonical)
  show "normalizeFlags [(name, FlagNull)] = [(camelCase name, FlagBool False)]"
    by (simp add: normalizeFlags_def)
  show "normalizeFlags [(''flag-a-1'', FlagBool False), (''flag_b'', FlagNull)]
       = [(''flagA1'', FlagBool False), (''flagB'', FlagBool False)]"
    by (rule normalizeFlags_example)
qed

theorem flag_normalization_idempotent_witness:
  "canonicalFlags [(''flagA1'', FlagBool False), (''fooFlag'', FlagVariation ''blue'')]
   \<and> normalizeFlags [(''flagA1'', FlagBool False), (''fooFlag'', FlagVariation ''blue'')]
       = [(''flagA1'', FlagBool False), (''fooFlag'', FlagVariation ''blue'')]"
proof -
  have c: "canonicalFlags [(''flagA1'', FlagBool False), (''fooFlag'', FlagVariation ''blue'')]"
    by (simp add: canonicalFlags_def canonicalName_def isWordChar_def isLowerCaseLetter_def
          isUpperCaseLetter_def isDigit_def)
  from flag_normalization_idempotent
         [of "[(''flagA1'', FlagBool False), (''fooFlag'', FlagVariation ''blue'')]"] c
  show ?thesis by blast
qed

text \<open>
  C9: after \<open>configure\<close> and any sequence of flag updates, \<open>reset\<close> leaves no flag
  to \<open>getFlag\<close>, and \<open>reset\<close> makes no call of \<open>onFlagsStateChange\<close> (or of any
  other callback): the record of notifications is the one before the call.
\<close>

theorem reset_clears_flags_silently:
  "getFlag flagName (reset (fold updateFlags updates (configure args st))) = None
   \<and> notifications (reset (fold updateFlags updates (configure args st)))
       = notifications (fold updateFlags updates (configure args st))"
  by (simp add: getFlag_def reset_def)

theorem reset_clears_flags_silently_witness:
  "getFlag ''fooFlag''
     (fold updateFlags [[(''fooFlag'', FlagBool True), (''barFlag'', FlagBool False)]]
        (configure ''foo'' initialMemoryAdapter))
     = Some (FlagBool True)
   \<and> getFlag ''fooFlag''
     (reset (fold updateFlags [[(''fooFlag'', FlagBool True), (''barFlag'', FlagBool False)]]
        (configure ''foo'' initialMemoryAdapter)))
     = None
   \<and> notifications
     (reset (fold updateFlags [[(''fooFlag'', FlagBool True), (''barFlag'', FlagBool False)]]
        (configure ''foo'' initialMemoryAdapter)))
     = [StatusStateChange \<lparr>isReady = True, isConfigured = True\<rparr>,
        FlagsStateChange [],
        FlagsStateChange [(''fooFlag'', FlagBool True), (''barFlag'', FlagBool False)]]"
proof -
  have n: "normalizeFlags [(''fooFlag'', FlagBool True), (''barFlag'', FlagBool False)]
             = [(''fooFlag'', FlagBool True), (''barFlag'', FlagBool False)]"
    by code_simp
  have b: "fold updateFlags [[(''fooFlag'', FlagBool True), (''barFlag'', FlagBool False)]]
             (configure ''foo'' initialMemoryAdapter)
           = \<lparr>flags = [(''fooFlag'', FlagBool True), (''barFlag'', FlagBool False)],
              user = Some ''foo'',
              status = \<lparr>isReady = True, isConfigured = True\<rparr>,
              notifications =
                [StatusStateChange \<lparr>isReady = True, isConfigured = True\<rparr>,
                 FlagsStateChange [],
                 FlagsStateChange [(''fooFlag'', FlagBool True), (''barFlag'', FlagBool False)]],
              invariantCalls = [True]\<rparr>"
    by (simp add: updateFlags_def configure_def initialMemoryAdapter_def n assignFields_def
          Let_def)
  note t = reset_clears_flags_silently
             [of "''fooFlag''"
                 "[[(''fooFlag'', FlagBool True), (''barFlag'', FlagBool False)]]"
                 "''foo''" initialMemoryAdapter]
  show ?thesis
    using t unfolding b by (simp add: getFlag_def reset_def)
qed

text \<open>
  C10: a flag update on an adapter that is not configured calls the assertion mechanism
  with a failing condition and returns, with the flags and the notifications as they
  were. A flag update after \<open>configure\<close> calls it with a condition that holds, and
  calls \<open>onFlagsStateChange\<close> with the flags that now hold the normalized update.
\<close>

theorem flag_update_asserts_configuration:
  "(\<not> isConfigured (status st) \<longrightarrow>
      updateFlags newFlags st = st\<lparr>invariantCalls := invariantCalls st @ [False]\<rparr>)
   \<and> invariantCalls (updateFlags newFlags (configure args st))
       = invariantCalls st @ [True]
   \<and> flags (updateFlags newFlags (configure args st))
       = assignFields (flags st) (normalizeFlags newFlags)
   \<and> notifications (updateFlags newFlags (configure args st))
       = notifications (configure args st)
         @ [FlagsStateChange (assignFields (flags st) (normalizeFlags newFlags))]"
  by (simp add: updateFlags_def configure_def Let_def)

theorem flag_update_asserts_configuration_witness:
  "isConfigured (status (initialMemoryAdapter :: string MemoryAdapter)) = False
   \<and> invariantCalls
       (updateFlags [(''attempted'', FlagVariation ''flagUpdate'')]
          (initialMemoryAdapter :: string MemoryAdapter))
     = [False]
   \<and> flags
       (updateFlags [(''attempted'', FlagVariation ''flagUpdate'')]
          (initialMemoryAdapter :: string MemoryAdapter))
     = []
   \<and> notifications
       (updateFlags [(''attempted'', FlagVariation ''flagUpdate'')]
          (initialMemoryAdapter :: string MemoryAdapter))
     = []"
proof -
  have c: "\<not> isConfigured (status (initialMemoryAdapter :: string MemoryAdapter))"
    by (simp add: initialMemoryAdapter_def)
  note u = flag_update_asserts_configuration
             [of "initialMemoryAdapter :: string MemoryAdapter"
                 "[(''attempted'', FlagVariation ''flagUpdate'')]" "''foo''",
              THEN conjunct1, rule_format, OF c]
  show ?thesis by (simp add: u) (simp add: initialMemoryAdapter_def)
qed


end
